theory Spec2Isabelle
  imports Main "HOL-Library.Word"
begin

section \<open>Data of the controllers\<close>

text \<open>
  The embedding follows \<^verbatim>\<open>controllers/usercontrollers.go\<close>. Errors are carried
  as the text of \<^verbatim>\<open>err.Error()\<close>, the only thing the handlers do with them.
\<close>

text \<open>\<^verbatim>\<open>gin.H\<close>: the JSON object handed to \<^verbatim>\<open>context.JSON\<close>.\<close>

datatype jvalue = JString string | JUint nat

type_synonym H = "(string \<times> jvalue) list"

text \<open>
  The part of \<^verbatim>\<open>*gin.Context\<close> the handlers write: every call of
  \<^verbatim>\<open>context.JSON(code, obj)\<close> in the order it is made, and whether
  \<^verbatim>\<open>context.Abort()\<close> was called.
\<close>

record gin_Context =
  written :: "(nat \<times> H) list"
  aborted :: bool

definition new_Context :: gin_Context where
  "new_Context = \<lparr>written = [], aborted = False\<rparr>"

definition JSON :: "nat \<Rightarrow> H \<Rightarrow> gin_Context \<Rightarrow> gin_Context" where
  "JSON code obj c = c\<lparr>written := written c @ [(code, obj)]\<rparr>"

definition Abort :: "gin_Context \<Rightarrow> gin_Context" where
  "Abort c = c\<lparr>aborted := True\<rparr>"

definition StatusOK :: nat where "StatusOK = 200"
definition StatusCreated :: nat where "StatusCreated = 201"
definition StatusBadRequest :: nat where "StatusBadRequest = 400"
definition StatusUnauthorized :: nat where "StatusUnauthorized = 401"
definition StatusInternalServerError :: nat where "StatusInternalServerError = 500"

text \<open>
  \<^verbatim>\<open>models.User\<close> is declared outside the two source files; these are the fields
  the controllers read and write.
\<close>

record User =
  ID :: nat
  Email :: string
  Password :: string
  IsVerified :: bool

record TokenRequest =
  TokenRequest_Email :: string
  TokenRequest_Password :: string

record OTPRequest =
  OTPRequest_Email :: string
  OTPRequest_OTP :: string

text \<open>
  The state the handlers share: the package variable
  \<^verbatim>\<open>var cache = make(map[string]string)\<close>, the rows behind \<^verbatim>\<open>DB\<close>, and the
  lines given to package \<^verbatim>\<open>log\<close> (without the date it puts before them). The field \<open>clock\<close> is the wall clock of the
  machine; no statement of the controllers reads it.
\<close>

record world =
  cache :: "string \<rightharpoonup> string"
  db :: "User list"
  log_lines :: "string list"
  clock :: nat

definition elapse :: "nat \<Rightarrow> world \<Rightarrow> world" where
  "elapse d w = w\<lparr>clock := clock w + d\<rparr>"

text \<open>The bodies of the two \<^verbatim>\<open>go func() { ... }()\<close> statements.\<close>

record mail =
  mail_addr :: string
  mail_auth :: "string \<times> string \<times> string \<times> string"
  mail_from :: string
  mail_to :: "string list"
  mail_msg :: string

datatype task = Task_SendMail mail | Task_Updates string

text \<open>
  What one call of a handler leaves behind: the world, the request's context as the
  handler's own statements wrote it, the goroutines it started, and whether it ended the
  process (\<^verbatim>\<open>log.Fatal\<close>). \<open>written_at_go\<close> holds the calls of
  \<^verbatim>\<open>context.JSON\<close> already made when the \<^verbatim>\<open>go\<close> statement was reached (none
  where no such statement was reached): only these are ordered before the goroutine.
\<close>

record outcome =
  after :: world
  ctx :: gin_Context
  written_at_go :: "(nat \<times> H) list"
  spawned :: "task list"
  exited :: bool

section \<open>generateOTP\<close>

text \<open>Decimal rendering of a natural number, most significant digit first.\<close>

definition digit_char :: "nat \<Rightarrow> char" where
  "digit_char d = char_of (48 + d)"

fun decimal :: "nat \<Rightarrow> string" where
  "decimal n = (if n < 10 then [digit_char n] else decimal (n div 10) @ [digit_char (n mod 10)])"

declare decimal.simps [simp del]

text \<open>
  \<^verbatim>\<open>fmt.Sprintf("%05d", v)\<close>: width 5, padded with zeros, the sign (if any) first
  and counted in the width.
\<close>

definition zero_pad :: "nat \<Rightarrow> string \<Rightarrow> string" where
  "zero_pad width s = replicate (width - length s) (CHR ''0'') @ s"

definition Sprintf_05d :: "int \<Rightarrow> string" where
  "Sprintf_05d v =
     (if v < 0 then CHR ''-'' # zero_pad 4 (decimal (nat (- v)))
      else zero_pad 5 (decimal (nat v)))"

text \<open>\<^verbatim>\<open>(*big.Int).Int64()\<close>: the low 64 bits.\<close>

definition Int64 :: "int \<Rightarrow> 64 word" where
  "Int64 x = word_of_int x"

definition otp_min :: "64 word" where "otp_min = 10000"
definition otp_max :: "64 word" where "otp_max = 99999"

text \<open>
  \<^verbatim>\<open>generateOTP\<close>. Its parameter is \<^verbatim>\<open>rand.Int(rand.Reader, _)\<close> of
  \<^verbatim>\<open>crypto/rand\<close>, as a function of the bound it is given: an error, or the
  number drawn. The result is Go's pair \<^verbatim>\<open>(string, error)\<close>, the empty string
  beside an error.
\<close>

definition generateOTP :: "(int \<Rightarrow> string + int) \<Rightarrow> string \<times> string option" where
  "generateOTP rand_Int =
     (case rand_Int (sint otp_max - sint otp_min) of
        Inl err \<Rightarrow> ([], Some err)
      | Inr randomInt \<Rightarrow>
          (let otpValue = Int64 randomInt + otp_min;
               otp = Sprintf_05d (sint otpValue)
           in (otp, None)))"

text \<open>
  The contract of \<^verbatim>\<open>rand.Int(rand.Reader, max)\<close>: on success the number drawn
  lies in \<open>[0, max)\<close>.
\<close>

definition rand_Int_draws :: "(int \<Rightarrow> string + int) \<Rightarrow> int \<Rightarrow> int \<Rightarrow> bool" where
  "rand_Int_draws rand_Int bound r = (rand_Int bound = Inr r \<and> 0 \<le> r \<and> r < bound)"

text \<open>Reading a decimal string back.\<close>

definition digit_val :: "char \<Rightarrow> nat" where
  "digit_val c = of_char c - 48"

definition is_digit :: "char \<Rightarrow> bool" where
  "is_digit c = (48 \<le> (of_char c :: nat) \<and> (of_char c :: nat) \<le> 57)"

definition atoi :: "string \<Rightarrow> nat" where
  "atoi s = foldl (\<lambda>acc c. 10 * acc + digit_val c) 0 s"

section \<open>The identity directory\<close>

text \<open>
  The library gorm and the database behind it are not part of the repository. The three
  calls the controllers make are modelled on a list of rows: \<^verbatim>\<open>DB.Create(&user)\<close>,
  \<^verbatim>\<open>DB.Where("email = ?", e).First(&user)\<close> and
  \<^verbatim>\<open>DB.Model(&models.User{}).Where("email = ?", e).Updates(models.User{IsVerified: true})\<close>.
  Whether a call fails, and with which error, is the environment's choice and a
  parameter; a call that fails changes no row.
\<close>

definition Create :: "string + nat \<Rightarrow> User \<Rightarrow> User list \<Rightarrow> string option \<times> User \<times> User list" where
  "Create res user rows =
     (case res of
        Inl err \<Rightarrow> (Some err, user, rows)
      | Inr i \<Rightarrow> (None, user\<lparr>ID := i\<rparr>, rows @ [user\<lparr>ID := i\<rparr>]))"

definition First :: "string option \<Rightarrow> string \<Rightarrow> User list \<Rightarrow> string + User" where
  "First fault email rows =
     (case fault of
        Some err \<Rightarrow> Inl err
      | None \<Rightarrow>
          (case filter (\<lambda>u. Email u = email) rows of
             [] \<Rightarrow> Inl ''record not found''
           | u # _ \<Rightarrow> Inr u))"

definition Updates_IsVerified :: "string \<Rightarrow> User list \<Rightarrow> User list" where
  "Updates_IsVerified email rows =
     map (\<lambda>u. if Email u = email then u\<lparr>IsVerified := True\<rparr> else u) rows"

section \<open>RegisterUser\<close>

text \<open>
  What the environment answers during one call of \<^verbatim>\<open>RegisterUser\<close>:
  \<^verbatim>\<open>context.ShouldBindJSON(&user)\<close> (an error, or the user parsed),
  \<^verbatim>\<open>user.HashPassword\<close> of package \<^verbatim>\<open>models\<close> (an error, or the user with
  the password replaced), the outcome of \<^verbatim>\<open>DB.Create\<close> (an error, or the id
  assigned), \<^verbatim>\<open>rand.Int\<close> and \<^verbatim>\<open>os.Getenv\<close>.
\<close>

record register_env =
  ShouldBindJSON_User :: "string + User"
  HashPassword :: "User \<Rightarrow> string \<Rightarrow> string + User"
  Create_result :: "string + nat"
  rand_Int :: "int \<Rightarrow> string + int"
  Getenv :: "string \<Rightarrow> string"

definition error_H :: "string \<Rightarrow> H" where
  "error_H err = [(''error'', JString err)]"

definition otp_message :: "string \<Rightarrow> string \<Rightarrow> string" where
  "otp_message email otp =
     ''To : '' @ email @ ''Subject : OTP for Registration '' @ [CHR 0x0D, CHR 0x0A] @ ''  ''
       @ [CHR 0x0D, CHR 0x0A] @ ''Your OTP For registration is '' @ otp @ [CHR 0x0A]"

definition RegisterUser :: "register_env \<Rightarrow> world \<Rightarrow> outcome" where
  "RegisterUser env w =
     (case ShouldBindJSON_User env of
        Inl err \<Rightarrow>
          \<lparr>after = w, ctx = Abort (JSON StatusBadRequest (error_H err) new_Context),
           written_at_go = [], spawned = [], exited = False\<rparr>
      | Inr user0 \<Rightarrow>
          (case HashPassword env user0 (Password user0) of
             Inl err \<Rightarrow>
               \<lparr>after = w, ctx = Abort (JSON StatusInternalServerError (error_H err) new_Context),
                written_at_go = [], spawned = [], exited = False\<rparr>
           | Inr user1 \<Rightarrow>
               (case Create (Create_result env) user1 (db w) of
                  (record_Error, user, rows) \<Rightarrow>
                    (let auth = ([], Getenv env ''EMAIL'', Getenv env ''PASSWORD'', ''smtp.gmail.com'');
                         to = [Email user];
                         (otp, err) = generateOTP (rand_Int env);
                         w1 = w\<lparr>db := rows, cache := (cache w)(Email user \<mapsto> otp)\<rparr>
                     in (case err of
                           Some e \<Rightarrow>
                             \<lparr>after = w1\<lparr>log_lines := log_lines w1 @ [''error in generating OTP'' @ e]\<rparr>,
                              ctx = new_Context, written_at_go = [], spawned = [], exited = True\<rparr>
                         | None \<Rightarrow>
                             (let message = otp_message (Email user) otp;
                                  go = [Task_SendMail
                                          \<lparr>mail_addr = ''smtp.gmail.com:587'', mail_auth = auth,
                                           mail_from = Getenv env ''EMAIL'', mail_to = to,
                                           mail_msg = message\<rparr>]
                              in (case record_Error of
                                    Some e \<Rightarrow>
                                      \<lparr>after = w1,
                                       ctx = Abort (JSON StatusInternalServerError (error_H e) new_Context),
                                       written_at_go = [], spawned = go, exited = False\<rparr>
                                  | None \<Rightarrow>
                                      \<lparr>after = w1,
                                       ctx = JSON StatusCreated
                                               [(''userId'', JUint (ID user)), (''email'', JString (Email user))]
                                               new_Context,
                                       written_at_go = [], spawned = go, exited = False\<rparr>)))))))"

section \<open>CheckOtp\<close>

text \<open>
  The environment of one call of \<^verbatim>\<open>CheckOtp\<close>: the result of
  \<^verbatim>\<open>context.ShouldBindJSON(&otp)\<close>. The statement after the comparison of the two
  codes has no \<^verbatim>\<open>return\<close>: control goes on to the \<^verbatim>\<open>go\<close> statement and to
  the last \<^verbatim>\<open>context.JSON\<close> on both branches.
\<close>

record otp_env =
  ShouldBindJSON_OTPRequest :: "string + OTPRequest"

definition CheckOtp :: "otp_env \<Rightarrow> world \<Rightarrow> outcome" where
  "CheckOtp env w =
     (case ShouldBindJSON_OTPRequest env of
        Inl err \<Rightarrow>
          \<lparr>after = w, ctx = Abort (JSON StatusBadRequest (error_H err) new_Context),
           written_at_go = [], spawned = [], exited = False\<rparr>
      | Inr otp \<Rightarrow>
          (case cache w (OTPRequest_Email otp) of
             None \<Rightarrow>
               \<lparr>after = w,
                ctx = Abort (JSON StatusUnauthorized (error_H ''invalid credentials'') new_Context),
                written_at_go = [], spawned = [], exited = False\<rparr>
           | Some value \<Rightarrow>
               (let c1 = (if value \<noteq> OTPRequest_OTP otp
                          then JSON StatusBadRequest (error_H ''Please Enter Valid OTP'') new_Context
                          else new_Context);
                    go = [Task_Updates (OTPRequest_Email otp)];
                    c2 = JSON StatusOK [(''message'', JString ''OTP Verified'')] c1
                in \<lparr>after = w, ctx = c2, written_at_go = written c1, spawned = go, exited = False\<rparr>)))"

section \<open>LoginController\<close>

text \<open>
  The environment of one call of \<^verbatim>\<open>LoginController\<close>: the binding of the request,
  a failure of the database other than a missing row, \<^verbatim>\<open>user.CheckPassword\<close> of
  package \<^verbatim>\<open>models\<close> (the error, if any) and \<^verbatim>\<open>authorization.GenerateJWT\<close>
  (an error, or the token).
\<close>

record login_env =
  ShouldBindJSON_TokenRequest :: "string + TokenRequest"
  First_fault :: "string option"
  CheckPassword :: "User \<Rightarrow> string \<Rightarrow> string option"
  GenerateJWT :: "string \<Rightarrow> string + string"

definition LoginController :: "login_env \<Rightarrow> world \<Rightarrow> outcome" where
  "LoginController env w =
     (case ShouldBindJSON_TokenRequest env of
        Inl err \<Rightarrow>
          \<lparr>after = w, ctx = Abort (JSON StatusBadRequest (error_H err) new_Context),
           written_at_go = [], spawned = [], exited = False\<rparr>
      | Inr request \<Rightarrow>
          (case First (First_fault env) (TokenRequest_Email request) (db w) of
             Inl err \<Rightarrow>
               \<lparr>after = w, ctx = Abort (JSON StatusInternalServerError (error_H err) new_Context),
                written_at_go = [], spawned = [], exited = False\<rparr>
           | Inr user \<Rightarrow>
               (case CheckPassword env user (TokenRequest_Password request) of
                  Some credentialError \<Rightarrow>
                    \<lparr>after = w,
                     ctx = Abort (JSON StatusUnauthorized (error_H ''invalid credentials'') new_Context),
                     written_at_go = [], spawned = [], exited = False\<rparr>
                | None \<Rightarrow>
                    (case GenerateJWT env (Email user) of
                       Inl err \<Rightarrow>
                         \<lparr>after = w,
                          ctx = Abort (JSON StatusInternalServerError (error_H err) new_Context),
                          written_at_go = [], spawned = [], exited = False\<rparr>
                     | Inr tokenString \<Rightarrow>
                         \<lparr>after = w,
                          ctx = JSON StatusOK [(''token'', JString tokenString)] new_Context,
                          written_at_go = [], spawned = [], exited = False\<rparr>))))"

text \<open>The three answers of \<^verbatim>\<open>CheckOtp\<close> past the binding, by name.\<close>

definition invalid_credentials :: "nat \<times> H" where
  "invalid_credentials = (StatusUnauthorized, error_H ''invalid credentials'')"

definition enter_valid_otp :: "nat \<times> H" where
  "enter_valid_otp = (StatusBadRequest, error_H ''Please Enter Valid OTP'')"

definition otp_verified :: "nat \<times> H" where
  "otp_verified = (StatusOK, [(''message'', JString ''OTP Verified'')])"

section \<open>The goroutines\<close>

text \<open>
  Running the body of a \<^verbatim>\<open>go\<close> statement. The first argument is the error of the
  call it makes (\<^verbatim>\<open>smtp.SendMail\<close>, or the \<^verbatim>\<open>Updates\<close> of the database), if
  any. \<open>run_task\<close> is what the body does to the world, \<open>task_JSON\<close> the calls of
  \<^verbatim>\<open>context.JSON\<close> it makes: the body of the one in \<^verbatim>\<open>CheckOtp\<close> writes to
  the context of the request that started it.
\<close>

fun run_task :: "string option \<Rightarrow> task \<Rightarrow> world \<Rightarrow> world" where
  "run_task err (Task_SendMail m) w =
     (case err of
        Some e \<Rightarrow> w\<lparr>log_lines := log_lines w @ [''Error in sending OTP: '' @ e]\<rparr>
      | None \<Rightarrow> w)"
| "run_task err (Task_Updates email) w =
     (case err of
        Some e \<Rightarrow> w
      | None \<Rightarrow> w\<lparr>db := Updates_IsVerified email (db w)\<rparr>)"

fun task_JSON :: "string option \<Rightarrow> task \<Rightarrow> (nat \<times> H) list" where
  "task_JSON err (Task_SendMail m) = []"
| "task_JSON err (Task_Updates email) =
     (case err of
        Some e \<Rightarrow> [(StatusInternalServerError, error_H e)]
      | None \<Rightarrow> [])"

text \<open>
  Nothing orders the statements of a goroutine and the statements of the handler that
  follow the \<^verbatim>\<open>go\<close> statement. \<open>interleavings xs ys\<close> lists every merge of two
  sequences of calls that keeps the order within each.
\<close>

fun interleavings :: "'a list \<Rightarrow> 'a list \<Rightarrow> 'a list list" where
  "interleavings [] ys = [ys]"
| "interleavings xs [] = [xs]"
| "interleavings (x # xs) (y # ys) =
     map ((#) x) (interleavings xs (y # ys)) @ map ((#) y) (interleavings (x # xs) ys)"

text \<open>
  Every sequence of \<^verbatim>\<open>context.JSON\<close> calls the context of a request can receive:
  the calls made before the \<^verbatim>\<open>go\<close> statement, then a merge of the handler's later
  calls with the goroutine's. A call is taken as one step.
\<close>

definition schedules :: "string option \<Rightarrow> outcome \<Rightarrow> (nat \<times> H) list list" where
  "schedules err out =
     map (\<lambda>calls. written_at_go out @ calls)
       (interleavings (drop (length (written_at_go out)) (written (ctx out)))
          (concat (map (task_JSON err) (spawned out))))"

text \<open>
  A request with its goroutines run to their end: the world they leave, and the
  sequences of calls its context can have received.
\<close>

definition settle :: "string option \<Rightarrow> outcome \<Rightarrow> world \<times> (nat \<times> H) list list" where
  "settle err out =
     (foldl (\<lambda>w t. run_task err t w) (after out) (spawned out), schedules err out)"

section \<open>The router\<close>

text \<open>
  \<^verbatim>\<open>initRouter\<close>: the three routes under \<^verbatim>\<open>/api\<close>. A request is the route with
  what the environment answers while it is served, the last component being the error
  met by the goroutine it starts.
\<close>

datatype request =
    Post_user_login login_env
  | Post_user_register register_env "string option"
  | Post_user_otp otp_env "string option"

fun handle :: "request \<Rightarrow> world \<Rightarrow> outcome" where
  "handle (Post_user_login env) w = LoginController env w"
| "handle (Post_user_register env _) w = RegisterUser env w"
| "handle (Post_user_otp env _) w = CheckOtp env w"

fun goroutine_error :: "request \<Rightarrow> string option" where
  "goroutine_error (Post_user_login _) = None"
| "goroutine_error (Post_user_register _ err) = err"
| "goroutine_error (Post_user_otp _ err) = err"

text \<open>
  Requests served one after the other, the goroutine of each having finished before the
  next is served. The result lists, for each request served, what its handler left;
  nothing is served after \<^verbatim>\<open>log.Fatal\<close> has ended the process.
\<close>

fun serve :: "request list \<Rightarrow> world \<Rightarrow> outcome list" where
  "serve [] w = []"
| "serve (r # rs) w =
     (let out = handle r w
      in out # (if exited out then [] else serve rs (fst (settle (goroutine_error r) out))))"

section \<open>Sample requests\<close>

text \<open>
  Concrete states and requests on which the theorems below are evaluated:
  \<open>world_alice\<close> holds the account and the code \<^verbatim>\<open>73210\<close> of scenario C,
  \<open>world_empty\<close> holds nothing.
\<close>

definition alice :: string where
  "alice = ''alice@example.com''"

definition alice_row :: User where
  "alice_row = \<lparr>ID = 1, Email = alice, Password = ''hash of p@ss1'', IsVerified = False\<rparr>"

definition world_alice :: world where
  "world_alice = \<lparr>cache = [alice \<mapsto> ''73210''], db = [alice_row], log_lines = [], clock = 0\<rparr>"

definition world_empty :: world where
  "world_empty = \<lparr>cache = Map.empty, db = [], log_lines = [], clock = 0\<rparr>"

definition otp_request :: "string \<Rightarrow> string \<Rightarrow> otp_env" where
  "otp_request email code =
     \<lparr>ShouldBindJSON_OTPRequest = Inr \<lparr>OTPRequest_Email = email, OTPRequest_OTP = code\<rparr>\<rparr>"

definition register_request :: "string \<Rightarrow> string \<Rightarrow> string + nat \<Rightarrow> string + int \<Rightarrow> register_env" where
  "register_request email password created drawn =
     \<lparr>ShouldBindJSON_User = Inr \<lparr>ID = 0, Email = email, Password = password, IsVerified = False\<rparr>,
      HashPassword = (\<lambda>u p. Inr (u\<lparr>Password := ''hash of '' @ p\<rparr>)),
      Create_result = created,
      rand_Int = (\<lambda>bound. drawn),
      Getenv = (\<lambda>name. if name = ''EMAIL'' then ''sender@example.com'' else ''secret'')\<rparr>"

definition login_request :: "string \<Rightarrow> string \<Rightarrow> login_env" where
  "login_request email password =
     \<lparr>ShouldBindJSON_TokenRequest =
        Inr \<lparr>TokenRequest_Email = email, TokenRequest_Password = password\<rparr>,
      First_fault = None,
      CheckPassword =
        (\<lambda>u p. if Password u = ''hash of '' @ p then None else Some ''wrong password''),
      GenerateJWT = (\<lambda>email. Inr (''token for '' @ email))\<rparr>"

section \<open>Facts about generateOTP\<close>

lemma decimal_small: "n < 10 \<Longrightarrow> decimal n = [digit_char n]"
  by (simp add: decimal.simps)

lemma decimal_step: "10 \<le> n \<Longrightarrow> decimal n = decimal (n div 10) @ [digit_char (n mod 10)]"
  by (subst decimal.simps) simp

lemma length_decimal_step: "10 \<le> n \<Longrightarrow> length (decimal n) = Suc (length (decimal (n div 10)))"
  by (simp add: decimal_step)

lemma length_decimal_2: "10 \<le> n \<Longrightarrow> n < 100 \<Longrightarrow> length (decimal n) = 2"
proof -
  assume n: "10 \<le> n" "n < 100"
  then have "n div 10 < 10" by simp
  then have "length (decimal (n div 10)) = 1" by (simp add: decimal_small)
  with n show ?thesis by (simp add: length_decimal_step)
qed

lemma length_decimal_3: "100 \<le> n \<Longrightarrow> n < 1000 \<Longrightarrow> length (decimal n) = 3"
proof -
  assume n: "100 \<le> n" "n < 1000"
  then have "10 \<le> n div 10" "n div 10 < 100" by simp_all
  then have "length (decimal (n div 10)) = 2" by (rule length_decimal_2)
  with n show ?thesis by (simp add: length_decimal_step)
qed

lemma length_decimal_4: "1000 \<le> n \<Longrightarrow> n < 10000 \<Longrightarrow> length (decimal n) = 4"
proof -
  assume n: "1000 \<le> n" "n < 10000"
  then have "100 \<le> n div 10" "n div 10 < 1000" by simp_all
  then have "length (decimal (n div 10)) = 3" by (rule length_decimal_3)
  with n show ?thesis by (simp add: length_decimal_step)
qed

lemma length_decimal_5: "10000 \<le> n \<Longrightarrow> n < 100000 \<Longrightarrow> length (decimal n) = 5"
proof -
  assume n: "10000 \<le> n" "n < 100000"
  then have "1000 \<le> n div 10" "n div 10 < 10000" by simp_all
  then have "length (decimal (n div 10)) = 4" by (rule length_decimal_4)
  with n show ?thesis by (simp add: length_decimal_step)
qed

lemma digit_val_digit_char: "d < 10 \<Longrightarrow> digit_val (digit_char d) = d"
  by (simp add: digit_val_def digit_char_def)

lemma is_digit_digit_char: "d < 10 \<Longrightarrow> is_digit (digit_char d)"
  by (simp add: is_digit_def digit_char_def)

lemma atoi_snoc: "atoi (s @ [c]) = 10 * atoi s + digit_val c"
  by (simp add: atoi_def)

text \<open>Reading back what \<open>decimal\<close> wrote gives the number: the rendering is injective.\<close>

lemma atoi_decimal: "atoi (decimal n) = n"
proof (induction n rule: decimal.induct)
  case (1 n)
  show ?case
  proof (cases "n < 10")
    case True
    then show ?thesis
      by (simp add: decimal_small atoi_def digit_val_digit_char)
  next
    case False
    then have "atoi (decimal (n div 10)) = n div 10"
      using 1 by simp
    with False show ?thesis
      by (simp add: decimal_step atoi_snoc digit_val_digit_char)
  qed
qed

lemma digits_decimal: "list_all is_digit (decimal n)"
proof (induction n rule: decimal.induct)
  case (1 n)
  show ?case
  proof (cases "n < 10")
    case True
    then show ?thesis
      by (simp add: decimal_small is_digit_digit_char)
  next
    case False
    then have "list_all is_digit (decimal (n div 10))"
      using 1 by simp
    with False show ?thesis
      by (simp add: decimal_step is_digit_digit_char)
  qed
qed

lemma rand_bound: "sint otp_max - sint otp_min = 89999"
  by (simp add: otp_max_def otp_min_def)

text \<open>No wrap-around: the sum stays far inside 64 bits.\<close>

lemma sint_otpValue:
  assumes "0 \<le> r" and "r < 89999"
  shows "sint (Int64 r + otp_min) = r + 10000"
proof -
  have "Int64 r + otp_min = (word_of_int (r + 10000) :: 64 word)"
    by (simp add: Int64_def otp_min_def)
  moreover have "sint (word_of_int (r + 10000) :: 64 word) = signed_take_bit 63 (r + 10000)"
    by (simp only: sint_sbintrunc') simp
  moreover have "signed_take_bit 63 (r + 10000) = r + 10000"
    using assms by (simp add: signed_take_bit_int_eq_self_iff)
  ultimately show ?thesis
    by simp
qed

lemma generateOTP_drawn:
  assumes "rand_Int_draws rnd (sint otp_max - sint otp_min) r"
  shows "generateOTP rnd = (decimal (nat (r + 10000)), None)"
proof -
  from assms have r: "rnd 89999 = Inr r" "0 \<le> r" "r < 89999"
    by (simp_all add: rand_Int_draws_def rand_bound)
  then have "length (decimal (nat (r + 10000))) = 5"
    by (intro length_decimal_5) simp_all
  with r show ?thesis
    by (simp add: generateOTP_def rand_bound sint_otpValue Sprintf_05d_def zero_pad_def)
qed

lemma generateOTP_failed:
  "rnd (sint otp_max - sint otp_min) = Inl e \<Longrightarrow> generateOTP rnd = ([], Some e)"
  by (simp add: generateOTP_def)

lemma digit_char_numerals:
  "digit_char 0 = CHR ''0''" "digit_char 1 = CHR ''1''" "digit_char 2 = CHR ''2''"
  "digit_char 3 = CHR ''3''" "digit_char 4 = CHR ''4''" "digit_char 5 = CHR ''5''"
  "digit_char 6 = CHR ''6''" "digit_char 7 = CHR ''7''" "digit_char 8 = CHR ''8''"
  "digit_char 9 = CHR ''9''" "digit_char (Suc 0) = CHR ''1''"
  unfolding digit_char_def by code_simp+

lemma decimal_73210: "decimal 73210 = ''73210''"
  by (simp add: decimal_step decimal_small digit_char_numerals)

lemma decimal_11111: "decimal 11111 = ''11111''"
  by (simp add: decimal_step decimal_small digit_char_numerals)

lemma decimal_99998: "decimal 99998 = ''99998''"
  by (simp add: decimal_step decimal_small digit_char_numerals)

lemma decimal_99999: "decimal 99999 = ''99999''"
  by (simp add: decimal_step decimal_small digit_char_numerals)

lemma generateOTP_63210: "generateOTP (\<lambda>bound. Inr 63210) = (''73210'', None)"
  using generateOTP_drawn [of "\<lambda>bound. Inr 63210" 63210]
  by (simp add: rand_Int_draws_def rand_bound decimal_73210)

lemma generateOTP_1111: "generateOTP (\<lambda>bound. Inr 1111) = (''11111'', None)"
  using generateOTP_drawn [of "\<lambda>bound. Inr 1111" 1111]
  by (simp add: rand_Int_draws_def rand_bound decimal_11111)

section \<open>Facts about the handlers\<close>

lemma CheckOtp_match:
  assumes "ShouldBindJSON_OTPRequest env = Inr otp"
    and "cache w (OTPRequest_Email otp) = Some (OTPRequest_OTP otp)"
  shows "CheckOtp env w =
           \<lparr>after = w, ctx = \<lparr>written = [otp_verified], aborted = False\<rparr>,
            written_at_go = [], spawned = [Task_Updates (OTPRequest_Email otp)], exited = False\<rparr>"
  using assms by (simp add: CheckOtp_def JSON_def new_Context_def otp_verified_def)

lemma CheckOtp_mismatch:
  assumes "ShouldBindJSON_OTPRequest env = Inr otp"
    and "cache w (OTPRequest_Email otp) = Some v"
    and "v \<noteq> OTPRequest_OTP otp"
  shows "CheckOtp env w =
           \<lparr>after = w, ctx = \<lparr>written = [enter_valid_otp, otp_verified], aborted = False\<rparr>,
            written_at_go = [enter_valid_otp], spawned = [Task_Updates (OTPRequest_Email otp)], exited = False\<rparr>"
  using assms
  by (simp add: CheckOtp_def JSON_def new_Context_def otp_verified_def enter_valid_otp_def)

lemma CheckOtp_absent:
  assumes "ShouldBindJSON_OTPRequest env = Inr otp"
    and "cache w (OTPRequest_Email otp) = None"
  shows "CheckOtp env w =
           \<lparr>after = w, ctx = \<lparr>written = [invalid_credentials], aborted = True\<rparr>,
            written_at_go = [], spawned = [], exited = False\<rparr>"
  using assms
  by (simp add: CheckOtp_def JSON_def Abort_def new_Context_def invalid_credentials_def)

lemma after_CheckOtp: "after (CheckOtp env w) = w"
  by (simp add: CheckOtp_def Let_def split: sum.split option.split)

lemma exited_CheckOtp: "\<not> exited (CheckOtp env w)"
  by (simp add: CheckOtp_def Let_def split: sum.split option.split)

text \<open>No goroutine touches the cache.\<close>

lemma cache_run_task: "cache (run_task err t w) = cache w"
  by (cases t; cases err) simp_all

lemma cache_run_tasks:
  "cache (foldl (\<lambda>w t. run_task err t w) w ts) = cache w"
  by (induction ts arbitrary: w) (simp_all add: cache_run_task)

lemma cache_settle: "cache (fst (settle err out)) = cache (after out)"
  by (simp add: settle_def cache_run_tasks)

lemma cache_settle_CheckOtp: "cache (fst (settle err (CheckOtp env w))) = cache w"
  by (simp add: cache_settle after_CheckOtp)

text \<open>
  \<^verbatim>\<open>RegisterUser\<close> past the binding and the hashing, when \<^verbatim>\<open>generateOTP\<close> returned
  a code and when it returned an error.
\<close>

lemma Email_Create: "Email (fst (snd (Create res user rows))) = Email user"
  by (simp add: Create_def split: sum.split)

lemma RegisterUser_generated:
  assumes "ShouldBindJSON_User env = Inr user0"
    and "HashPassword env user0 (Password user0) = Inr user1"
    and "generateOTP (rand_Int env) = (otp, None)"
    and "Create (Create_result env) user1 (db w) = (record_Error, user, rows)"
  shows "RegisterUser env w =
           \<lparr>after = w\<lparr>db := rows, cache := (cache w)(Email user \<mapsto> otp)\<rparr>,
            ctx = (case record_Error of
                     Some e \<Rightarrow> Abort (JSON StatusInternalServerError (error_H e) new_Context)
                   | None \<Rightarrow> JSON StatusCreated
                              [(''userId'', JUint (ID user)), (''email'', JString (Email user))]
                              new_Context),
            written_at_go = [], spawned = [Task_SendMail
                         \<lparr>mail_addr = ''smtp.gmail.com:587'',
                          mail_auth = ([], Getenv env ''EMAIL'', Getenv env ''PASSWORD'', ''smtp.gmail.com''),
                          mail_from = Getenv env ''EMAIL'', mail_to = [Email user],
                          mail_msg = otp_message (Email user) otp\<rparr>],
            exited = False\<rparr>"
  using assms by (simp add: RegisterUser_def split: option.split)

lemma RegisterUser_fatal:
  assumes "ShouldBindJSON_User env = Inr user0"
    and "HashPassword env user0 (Password user0) = Inr user1"
    and "generateOTP (rand_Int env) = (otp, Some e)"
    and "Create (Create_result env) user1 (db w) = (record_Error, user, rows)"
  shows "RegisterUser env w =
           \<lparr>after = w\<lparr>db := rows, cache := (cache w)(Email user \<mapsto> otp),
                       log_lines := log_lines w @ [''error in generating OTP'' @ e]\<rparr>,
            ctx = new_Context, written_at_go = [], spawned = [], exited = True\<rparr>"
  using assms by (simp add: RegisterUser_def)

section \<open>Verification with the matching code\<close>

text \<open>
  C1, as the code has it. For every email with a code in the cache, \<^verbatim>\<open>CheckOtp\<close>
  with that code answers 200 \<^verbatim>\<open>OTP Verified\<close> and leaves the cache as it was: no
  statement of the handler or of its goroutine deletes the entry. A second call with the
  same code, served after the first (whatever became of the update of the database), is
  answered 200 \<^verbatim>\<open>OTP Verified\<close> again, not 401 \<^verbatim>\<open>invalid credentials\<close>.
\<close>

theorem CheckOtp_match_keeps_challenge:
  assumes "ShouldBindJSON_OTPRequest env = Inr otp"
    and "cache w (OTPRequest_Email otp) = Some (OTPRequest_OTP otp)"
  shows "map (\<lambda>out. written (ctx out)) (serve [Post_user_otp env err1, Post_user_otp env err2] w)
           = [[otp_verified], [otp_verified]]
         \<and> cache (fst (settle err1 (CheckOtp env w))) = cache w"
proof -
  have "cache (fst (settle err1 (CheckOtp env w))) (OTPRequest_Email otp) = Some (OTPRequest_OTP otp)"
    using assms(2) by (simp add: cache_settle_CheckOtp)
  then have "written (ctx (CheckOtp env (fst (settle err1 (CheckOtp env w))))) = [otp_verified]"
    using assms(1) by (simp add: CheckOtp_match)
  moreover have "written (ctx (CheckOtp env w)) = [otp_verified]"
    using assms by (simp add: CheckOtp_match)
  ultimately show ?thesis
    by (simp add: Let_def exited_CheckOtp cache_settle_CheckOtp)
qed

theorem CheckOtp_match_keeps_challenge_witness:
  "map (\<lambda>out. written (ctx out))
     (serve [Post_user_otp (otp_request alice ''73210'') None,
             Post_user_otp (otp_request alice ''73210'') (Some ''db down'')] world_alice)
     = [[otp_verified], [otp_verified]]
   \<and> cache (fst (settle None (CheckOtp (otp_request alice ''73210'') world_alice))) = cache world_alice"
proof -
  let ?otp = "\<lparr>OTPRequest_Email = alice, OTPRequest_OTP = ''73210''\<rparr>"
  have bound: "ShouldBindJSON_OTPRequest (otp_request alice ''73210'') = Inr ?otp"
    by (simp add: otp_request_def)
  have stored: "cache world_alice (OTPRequest_Email ?otp) = Some (OTPRequest_OTP ?otp)"
    by (simp add: world_alice_def)
  show ?thesis
    by (rule CheckOtp_match_keeps_challenge [OF bound stored])
qed

text \<open>
  The claim as stated fails on scenario B: after the issued code \<^verbatim>\<open>73210\<close> has been
  verified once, the entry is still in the cache and the same code is verified a second
  time; the second answer is not the 401 of a missing challenge.
\<close>

theorem CheckOtp_replay_counterexample:
  "written (ctx (CheckOtp (otp_request alice ''73210'') world_alice)) = [otp_verified]
   \<and> cache (fst (settle None (CheckOtp (otp_request alice ''73210'') world_alice))) alice
       = Some ''73210''
   \<and> written (ctx (CheckOtp (otp_request alice ''73210'')
        (fst (settle None (CheckOtp (otp_request alice ''73210'') world_alice))))) = [otp_verified]
   \<and> written (ctx (CheckOtp (otp_request alice ''73210'')
        (fst (settle None (CheckOtp (otp_request alice ''73210'') world_alice)))))
       \<noteq> [invalid_credentials]"
  by (simp add: CheckOtp_def settle_def otp_request_def world_alice_def alice_def JSON_def
      new_Context_def otp_verified_def invalid_credentials_def StatusOK_def StatusUnauthorized_def)

section \<open>Verification with a wrong code\<close>

text \<open>
  C2, evaluated on scenario C: the issued code is \<^verbatim>\<open>73210\<close> and \<^verbatim>\<open>00000\<close> is
  submitted. The handler writes 400 \<^verbatim>\<open>Please Enter Valid OTP\<close> and, the branch having
  no \<^verbatim>\<open>return\<close>, goes on as for a matching code: it starts the goroutine that sets
  \<^verbatim>\<open>IsVerified\<close> and writes 200 \<^verbatim>\<open>OTP Verified\<close>. Once the goroutine has run, the
  row of the account is verified. The entry stays in the cache.
\<close>

theorem CheckOtp_wrong_code_falls_through:
  "written (ctx (CheckOtp (otp_request alice ''00000'') world_alice))
     = [enter_valid_otp, otp_verified]
   \<and> spawned (CheckOtp (otp_request alice ''00000'') world_alice) = [Task_Updates alice]
   \<and> map IsVerified (db world_alice) = [False]
   \<and> map IsVerified (db (fst (settle None (CheckOtp (otp_request alice ''00000'') world_alice))))
       = [True]
   \<and> cache (after (CheckOtp (otp_request alice ''00000'') world_alice)) alice = Some ''73210''"
  by (simp add: CheckOtp_def settle_def otp_request_def world_alice_def alice_def alice_row_def
      JSON_def new_Context_def otp_verified_def enter_valid_otp_def Updates_IsVerified_def)

section \<open>Expiry\<close>

text \<open>
  C3, as the code has it. A cache entry is the code alone (\<^verbatim>\<open>map[string]string\<close>): no
  time is stored with it and \<^verbatim>\<open>CheckOtp\<close> reads no clock. However much time has passed
  since the code was stored, the handler does what it would have done at once; with the
  code of the cache it answers 200 \<^verbatim>\<open>OTP Verified\<close>.
\<close>

theorem CheckOtp_ignores_clock:
  assumes "ShouldBindJSON_OTPRequest env = Inr otp"
    and "cache w (OTPRequest_Email otp) = Some (OTPRequest_OTP otp)"
  shows "ctx (CheckOtp env (elapse d w)) = ctx (CheckOtp env w)
         \<and> spawned (CheckOtp env (elapse d w)) = spawned (CheckOtp env w)
         \<and> cache (after (CheckOtp env (elapse d w))) = cache w
         \<and> written (ctx (CheckOtp env (elapse d w))) = [otp_verified]"
proof -
  have "cache (elapse d w) (OTPRequest_Email otp) = Some (OTPRequest_OTP otp)"
    using assms(2) by (simp add: elapse_def)
  then have "CheckOtp env (elapse d w) =
           \<lparr>after = elapse d w, ctx = \<lparr>written = [otp_verified], aborted = False\<rparr>,
            written_at_go = [], spawned = [Task_Updates (OTPRequest_Email otp)], exited = False\<rparr>"
    using assms(1) by (rule CheckOtp_match [rotated])
  then show ?thesis
    using assms by (simp add: CheckOtp_match elapse_def)
qed

theorem CheckOtp_ignores_clock_witness:
  "ctx (CheckOtp (otp_request alice ''73210'') (elapse 86400 world_alice))
     = ctx (CheckOtp (otp_request alice ''73210'') world_alice)
   \<and> spawned (CheckOtp (otp_request alice ''73210'') (elapse 86400 world_alice))
     = spawned (CheckOtp (otp_request alice ''73210'') world_alice)
   \<and> cache (after (CheckOtp (otp_request alice ''73210'') (elapse 86400 world_alice)))
     = cache world_alice
   \<and> written (ctx (CheckOtp (otp_request alice ''73210'') (elapse 86400 world_alice)))
     = [otp_verified]"
proof -
  let ?otp = "\<lparr>OTPRequest_Email = alice, OTPRequest_OTP = ''73210''\<rparr>"
  have bound: "ShouldBindJSON_OTPRequest (otp_request alice ''73210'') = Inr ?otp"
    by (simp add: otp_request_def)
  have stored: "cache world_alice (OTPRequest_Email ?otp) = Some (OTPRequest_OTP ?otp)"
    by (simp add: world_alice_def)
  show ?thesis
    by (rule CheckOtp_ignores_clock [OF bound stored])
qed

text \<open>
  The claim as stated fails: \<^verbatim>\<open>RegisterUser\<close> stores the code \<^verbatim>\<open>73210\<close> for Alice
  when the clock shows 0; a year later (31536000 seconds) \<^verbatim>\<open>CheckOtp\<close> with that code
  is answered 200 \<^verbatim>\<open>OTP Verified\<close>, not as a missing challenge.
\<close>

theorem CheckOtp_after_a_year_counterexample:
  "cache (after (RegisterUser (register_request alice ''p@ss1'' (Inr 1) (Inr 63210)) world_empty))
     alice = Some ''73210''
   \<and> clock (elapse 31536000
        (after (RegisterUser (register_request alice ''p@ss1'' (Inr 1) (Inr 63210)) world_empty)))
       = 31536000
   \<and> written (ctx (CheckOtp (otp_request alice ''73210'')
        (elapse 31536000
          (after (RegisterUser (register_request alice ''p@ss1'' (Inr 1) (Inr 63210)) world_empty)))))
       = [otp_verified]
   \<and> [otp_verified] \<noteq> [invalid_credentials]"
proof -
  have reg: "RegisterUser (register_request alice ''p@ss1'' (Inr 1) (Inr 63210)) world_empty =
        \<lparr>after = world_empty\<lparr>db := [\<lparr>ID = 1, Email = alice, Password = ''hash of p@ss1'', IsVerified = False\<rparr>],
                             cache := (cache world_empty)(alice \<mapsto> ''73210'')\<rparr>,
         ctx = JSON StatusCreated [(''userId'', JUint 1), (''email'', JString alice)] new_Context,
         written_at_go = [], spawned = [Task_SendMail
                      \<lparr>mail_addr = ''smtp.gmail.com:587'',
                       mail_auth = ([], ''sender@example.com'', ''secret'', ''smtp.gmail.com''),
                       mail_from = ''sender@example.com'', mail_to = [alice],
                       mail_msg = otp_message alice ''73210''\<rparr>],
         exited = False\<rparr>"
    by (simp add: RegisterUser_def register_request_def generateOTP_63210 Create_def world_empty_def)
  show ?thesis
    unfolding reg
    by (simp add: CheckOtp_def otp_request_def elapse_def world_empty_def JSON_def new_Context_def
        otp_verified_def invalid_credentials_def StatusOK_def StatusUnauthorized_def)
qed

section \<open>Several verifications of one code\<close>

text \<open>
  C4, as the code has it. \<^verbatim>\<open>CheckOtp\<close> reads the cache and never writes it, so there is
  no match-and-consume step to make atomic. When any number of calls with the code of the
  cache for one email are served one after the other (one of the schedules of as many
  concurrent calls), every one of them is answered 200 \<^verbatim>\<open>OTP Verified\<close>, whatever
  the goroutines of the earlier ones met.
\<close>

theorem serve_same_code_all_verified:
  assumes "ShouldBindJSON_OTPRequest env = Inr otp"
    and "cache w (OTPRequest_Email otp) = Some (OTPRequest_OTP otp)"
  shows "map (\<lambda>out. written (ctx out)) (serve (map (Post_user_otp env) errs) w)
           = replicate (length errs) [otp_verified]"
  using assms(2)
proof (induction errs arbitrary: w)
  case Nil
  show ?case by simp
next
  case (Cons err errs)
  have "cache (fst (settle err (CheckOtp env w))) (OTPRequest_Email otp) = Some (OTPRequest_OTP otp)"
    using Cons.prems by (simp add: cache_settle_CheckOtp)
  then have "map (\<lambda>out. written (ctx out))
               (serve (map (Post_user_otp env) errs) (fst (settle err (CheckOtp env w))))
             = replicate (length errs) [otp_verified]"
    by (rule Cons.IH)
  moreover have "written (ctx (CheckOtp env w)) = [otp_verified]"
    using assms(1) Cons.prems by (simp add: CheckOtp_match)
  ultimately show ?case
    by (simp add: Let_def exited_CheckOtp)
qed

theorem serve_same_code_all_verified_witness:
  "map (\<lambda>out. written (ctx out))
     (serve (map (Post_user_otp (otp_request alice ''73210'')) [None, Some ''db down'', None])
        world_alice)
     = replicate (length [None, Some ''db down'', None]) [otp_verified]"
proof -
  let ?otp = "\<lparr>OTPRequest_Email = alice, OTPRequest_OTP = ''73210''\<rparr>"
  have bound: "ShouldBindJSON_OTPRequest (otp_request alice ''73210'') = Inr ?otp"
    by (simp add: otp_request_def)
  have stored: "cache world_alice (OTPRequest_Email ?otp) = Some (OTPRequest_OTP ?otp)"
    by (simp add: world_alice_def)
  show ?thesis
    by (rule serve_same_code_all_verified [OF bound stored])
qed

text \<open>
  The claim as stated fails: of three calls with Alice's code \<^verbatim>\<open>73210\<close>, served in
  turn, three are answered 200 \<^verbatim>\<open>OTP Verified\<close>, not exactly one.
\<close>

theorem three_verifications_counterexample:
  "length (filter (\<lambda>out. written (ctx out) = [otp_verified])
     (serve [Post_user_otp (otp_request alice ''73210'') None,
             Post_user_otp (otp_request alice ''73210'') None,
             Post_user_otp (otp_request alice ''73210'') None] world_alice)) = 3
   \<and> (3 :: nat) \<noteq> 1"
  by (simp add: Let_def CheckOtp_def settle_def otp_request_def world_alice_def alice_def JSON_def
      new_Context_def otp_verified_def)

section \<open>What the caller is told about a mistake\<close>

text \<open>
  C5, as the code has it. The two mistakes are answered differently by both handlers.
  \<^verbatim>\<open>CheckOtp\<close> answers 401 \<^verbatim>\<open>invalid credentials\<close> when the cache has no code for
  the email, and begins its answer with 400 \<^verbatim>\<open>Please Enter Valid OTP\<close> when the code
  differs. \<^verbatim>\<open>LoginController\<close> answers 500 with the text of the database's error when
  the account is not found, and 401 \<^verbatim>\<open>invalid credentials\<close> when the password is
  wrong. Here \<open>w1\<close> is a state without the challenge and the account, \<open>w2\<close> one with
  them.
\<close>

theorem caller_mistakes_are_told_apart:
  assumes "ShouldBindJSON_OTPRequest env = Inr otp"
    and "cache w1 (OTPRequest_Email otp) = None"
    and "cache w2 (OTPRequest_Email otp) = Some v"
    and "v \<noteq> OTPRequest_OTP otp"
    and "ShouldBindJSON_TokenRequest lenv = Inr request"
    and "First (First_fault lenv) (TokenRequest_Email request) (db w1) = Inl err"
    and "First (First_fault lenv) (TokenRequest_Email request) (db w2) = Inr user"
    and "CheckPassword lenv user (TokenRequest_Password request) = Some credentialError"
  shows "written (ctx (CheckOtp env w1)) = [invalid_credentials]
         \<and> hd (written (ctx (CheckOtp env w2))) = enter_valid_otp
         \<and> fst invalid_credentials \<noteq> fst enter_valid_otp
         \<and> snd invalid_credentials \<noteq> snd enter_valid_otp
         \<and> written (ctx (LoginController lenv w1)) = [(StatusInternalServerError, error_H err)]
         \<and> written (ctx (LoginController lenv w2)) = [invalid_credentials]
         \<and> StatusInternalServerError \<noteq> fst invalid_credentials"
proof -
  have "written (ctx (CheckOtp env w1)) = [invalid_credentials]"
    using assms(1,2) by (simp add: CheckOtp_absent)
  moreover have "hd (written (ctx (CheckOtp env w2))) = enter_valid_otp"
    using assms(1,3,4) by (simp add: CheckOtp_mismatch)
  moreover have "fst invalid_credentials \<noteq> fst enter_valid_otp"
    by (simp add: invalid_credentials_def enter_valid_otp_def StatusUnauthorized_def
        StatusBadRequest_def)
  moreover have "snd invalid_credentials \<noteq> snd enter_valid_otp"
    by (simp add: invalid_credentials_def enter_valid_otp_def error_H_def)
  moreover have "written (ctx (LoginController lenv w1)) = [(StatusInternalServerError, error_H err)]"
    using assms(5,6) by (simp add: LoginController_def JSON_def Abort_def new_Context_def)
  moreover have "written (ctx (LoginController lenv w2)) = [invalid_credentials]"
    using assms(5,7,8)
    by (simp add: LoginController_def JSON_def Abort_def new_Context_def invalid_credentials_def)
  moreover have "StatusInternalServerError \<noteq> fst invalid_credentials"
    by (simp add: invalid_credentials_def StatusUnauthorized_def StatusInternalServerError_def)
  ultimately show ?thesis
    by simp
qed

theorem caller_mistakes_are_told_apart_witness:
  "written (ctx (CheckOtp (otp_request alice ''00000'') world_empty)) = [invalid_credentials]
   \<and> hd (written (ctx (CheckOtp (otp_request alice ''00000'') world_alice))) = enter_valid_otp
   \<and> fst invalid_credentials \<noteq> fst enter_valid_otp
   \<and> snd invalid_credentials \<noteq> snd enter_valid_otp
   \<and> written (ctx (LoginController (login_request alice ''guess'') world_empty))
       = [(StatusInternalServerError, error_H ''record not found'')]
   \<and> written (ctx (LoginController (login_request alice ''guess'') world_alice))
       = [invalid_credentials]
   \<and> StatusInternalServerError \<noteq> fst invalid_credentials"
proof -
  let ?otp = "\<lparr>OTPRequest_Email = alice, OTPRequest_OTP = ''00000''\<rparr>"
  let ?request = "\<lparr>TokenRequest_Email = alice, TokenRequest_Password = ''guess''\<rparr>"
  have h1: "ShouldBindJSON_OTPRequest (otp_request alice ''00000'') = Inr ?otp"
    by (simp add: otp_request_def)
  have h2: "cache world_empty (OTPRequest_Email ?otp) = None"
    by (simp add: world_empty_def)
  have h3: "cache world_alice (OTPRequest_Email ?otp) = Some ''73210''"
    by (simp add: world_alice_def)
  have h4: "''73210'' \<noteq> OTPRequest_OTP ?otp"
    by simp
  have h5: "ShouldBindJSON_TokenRequest (login_request alice ''guess'') = Inr ?request"
    by (simp add: login_request_def)
  have h6: "First (First_fault (login_request alice ''guess'')) (TokenRequest_Email ?request)
              (db world_empty) = Inl ''record not found''"
    by (simp add: login_request_def First_def world_empty_def)
  have h7: "First (First_fault (login_request alice ''guess'')) (TokenRequest_Email ?request)
              (db world_alice) = Inr alice_row"
    by (simp add: login_request_def First_def world_alice_def alice_row_def)
  have h8: "CheckPassword (login_request alice ''guess'') alice_row (TokenRequest_Password ?request)
              = Some ''wrong password''"
    by (simp add: login_request_def alice_row_def)
  show ?thesis
    by (rule caller_mistakes_are_told_apart [OF h1 h2 h3 h4 h5 h6 h7 h8])
qed

text \<open>
  The claim as stated fails on both pairs. The same wrong code \<^verbatim>\<open>00000\<close> for Alice is
  answered with status 401 when no code is stored and with status 400 first when one is;
  the same login is answered with status 500 when there is no account and 401 when the
  password is wrong.
\<close>

theorem caller_mistakes_counterexample:
  "map fst (written (ctx (CheckOtp (otp_request alice ''00000'') world_empty))) = [401]
   \<and> map fst (written (ctx (CheckOtp (otp_request alice ''00000'') world_alice))) = [400, 200]
   \<and> written (ctx (CheckOtp (otp_request alice ''00000'') world_empty))
       \<noteq> written (ctx (CheckOtp (otp_request alice ''00000'') world_alice))
   \<and> map fst (written (ctx (LoginController (login_request alice ''guess'') world_empty))) = [500]
   \<and> map fst (written (ctx (LoginController (login_request alice ''guess'') world_alice))) = [401]
   \<and> written (ctx (LoginController (login_request alice ''guess'') world_empty))
       \<noteq> written (ctx (LoginController (login_request alice ''guess'') world_alice))"
  by (simp add: CheckOtp_def LoginController_def First_def otp_request_def login_request_def
      world_alice_def world_empty_def alice_row_def alice_def JSON_def Abort_def new_Context_def
      StatusOK_def StatusBadRequest_def StatusUnauthorized_def StatusInternalServerError_def)

section \<open>The range of the generated code\<close>

lemma generateOTP_greatest: "generateOTP (\<lambda>bound. Inr (bound - 1)) = (''99998'', None)"
  using generateOTP_drawn [of "\<lambda>bound. Inr (bound - 1)" 89998]
  by (simp add: rand_Int_draws_def rand_bound decimal_99998)

text \<open>
  C6, on the code. \<^verbatim>\<open>generateOTP\<close> gives \<^verbatim>\<open>max - min = 89999\<close> to \<^verbatim>\<open>rand.Int\<close>,
  whose bound is exclusive: the number drawn is at most 89998. Every successful call
  returns five decimal digits whose value lies between 10000 and 99998; the declared
  \<^verbatim>\<open>max\<close>, 99999, is never returned.
\<close>

theorem generateOTP_never_max:
  assumes "rand_Int_draws rnd (sint otp_max - sint otp_min) r"
  shows "snd (generateOTP rnd) = None
         \<and> length (fst (generateOTP rnd)) = 5
         \<and> list_all is_digit (fst (generateOTP rnd))
         \<and> 10000 \<le> atoi (fst (generateOTP rnd))
         \<and> atoi (fst (generateOTP rnd)) \<le> 99998
         \<and> fst (generateOTP rnd) \<noteq> ''99999''"
proof -
  from assms have r: "0 \<le> r" "r < 89999"
    by (simp_all add: rand_Int_draws_def rand_bound)
  have otp: "generateOTP rnd = (decimal (nat (r + 10000)), None)"
    using assms by (rule generateOTP_drawn)
  have len: "length (decimal (nat (r + 10000))) = 5"
    using r by (intro length_decimal_5) simp_all
  have val: "atoi (decimal (nat (r + 10000))) = nat (r + 10000)"
    by (rule atoi_decimal)
  have "decimal (nat (r + 10000)) \<noteq> ''99999''"
  proof
    assume "decimal (nat (r + 10000)) = ''99999''"
    then have "atoi (decimal (nat (r + 10000))) = atoi (decimal 99999)"
      by (simp add: decimal_99999)
    then have "nat (r + 10000) = 99999"
      by (simp only: atoi_decimal)
    with r show False
      by simp
  qed
  moreover have "10000 \<le> nat (r + 10000)" and "nat (r + 10000) \<le> 99998"
    using r by linarith+
  ultimately show ?thesis
    by (simp add: otp len val digits_decimal)
qed

theorem generateOTP_never_max_witness:
  "snd (generateOTP (\<lambda>bound. Inr (bound - 1))) = None
   \<and> length (fst (generateOTP (\<lambda>bound. Inr (bound - 1)))) = 5
   \<and> list_all is_digit (fst (generateOTP (\<lambda>bound. Inr (bound - 1))))
   \<and> 10000 \<le> atoi (fst (generateOTP (\<lambda>bound. Inr (bound - 1))))
   \<and> atoi (fst (generateOTP (\<lambda>bound. Inr (bound - 1)))) \<le> 99998
   \<and> fst (generateOTP (\<lambda>bound. Inr (bound - 1))) \<noteq> ''99999''"
proof -
  have drawn: "rand_Int_draws (\<lambda>bound. Inr (bound - 1)) (sint otp_max - sint otp_min) 89998"
    by (simp add: rand_Int_draws_def rand_bound)
  show ?thesis
    by (rule generateOTP_never_max [OF drawn])
qed

section \<open>A code issued again\<close>

text \<open>
  \<^verbatim>\<open>RegisterUser\<close> stores the new code under the email, over whatever was there: the
  cache holds one code for an email.
\<close>

lemma RegisterUser_supersedes:
  assumes "ShouldBindJSON_User env = Inr user0"
    and "HashPassword env user0 (Password user0) = Inr user1"
    and "generateOTP (rand_Int env) = (otp, None)"
  shows "cache (after (RegisterUser env w)) = (cache w)(Email user1 \<mapsto> otp)"
proof -
  obtain record_Error user rows
    where c: "Create (Create_result env) user1 (db w) = (record_Error, user, rows)"
    by (cases "Create (Create_result env) user1 (db w)") auto
  then have "Email user = Email user1"
    using Email_Create [of "Create_result env" user1 "db w"] by simp
  then show ?thesis
    by (simp add: RegisterUser_generated [OF assms c])
qed

text \<open>
  C7, evaluated. Alice holds the code \<^verbatim>\<open>73210\<close>; she registers again and
  \<^verbatim>\<open>11111\<close> takes its place in the cache. \<^verbatim>\<open>CheckOtp\<close> with the old code then
  writes 400 \<^verbatim>\<open>Please Enter Valid OTP\<close> and, for want of a \<^verbatim>\<open>return\<close>, goes on to
  start the update of \<^verbatim>\<open>IsVerified\<close> and to write 200 \<^verbatim>\<open>OTP Verified\<close>; the row
  ends verified.
\<close>

theorem old_code_after_reissue:
  "cache (after (RegisterUser (register_request alice ''p@ss1'' (Inl ''duplicate key'') (Inr 1111))
      world_alice)) alice = Some ''11111''
   \<and> written (ctx (CheckOtp (otp_request alice ''73210'')
        (after (RegisterUser (register_request alice ''p@ss1'' (Inl ''duplicate key'') (Inr 1111))
           world_alice))))
       = [enter_valid_otp, otp_verified]
   \<and> spawned (CheckOtp (otp_request alice ''73210'')
        (after (RegisterUser (register_request alice ''p@ss1'' (Inl ''duplicate key'') (Inr 1111))
           world_alice)))
       = [Task_Updates alice]
   \<and> map IsVerified (db (fst (settle None (CheckOtp (otp_request alice ''73210'')
        (after (RegisterUser (register_request alice ''p@ss1'' (Inl ''duplicate key'') (Inr 1111))
           world_alice))))))
       = [True]"
proof -
  have reg: "after (RegisterUser (register_request alice ''p@ss1'' (Inl ''duplicate key'') (Inr 1111))
               world_alice)
             = world_alice\<lparr>cache := (cache world_alice)(alice \<mapsto> ''11111'')\<rparr>"
    by (simp add: RegisterUser_def register_request_def generateOTP_1111 Create_def world_alice_def)
  show ?thesis
    unfolding reg
    by (simp add: CheckOtp_def settle_def otp_request_def world_alice_def alice_def alice_row_def
        JSON_def new_Context_def otp_verified_def enter_valid_otp_def Updates_IsVerified_def)
qed

section \<open>Failure of the random source\<close>

text \<open>
  C8, on the code. \<^verbatim>\<open>RegisterUser\<close> stores what \<^verbatim>\<open>generateOTP\<close> returned before
  it looks at the error. When \<^verbatim>\<open>rand.Int\<close> fails in a registration that has reached
  the generation of the code, the empty string returned beside the error is put in the
  cache as the code of the email; only then does \<^verbatim>\<open>log.Fatal\<close> end the process. No
  goroutine has been started and nothing has been written to the caller, and no request
  is served afterwards; but in the state the process ends in, the rows are those
  \<^verbatim>\<open>DB.Create\<close> left and \<^verbatim>\<open>CheckOtp\<close> answers 200 \<^verbatim>\<open>OTP Verified\<close> to an
  empty code for that email.
\<close>

theorem RegisterUser_entropy_failure_stores_empty_code:
  assumes "ShouldBindJSON_User env = Inr user0"
    and "HashPassword env user0 (Password user0) = Inr user1"
    and "rand_Int env (sint otp_max - sint otp_min) = Inl e"
    and "Create (Create_result env) user1 (db w) = (record_Error, user, rows)"
    and "ShouldBindJSON_OTPRequest oenv = Inr \<lparr>OTPRequest_Email = Email user1, OTPRequest_OTP = []\<rparr>"
  shows "RegisterUser env w =
           \<lparr>after = w\<lparr>db := rows, cache := (cache w)(Email user1 \<mapsto> []),
                       log_lines := log_lines w @ [''error in generating OTP'' @ e]\<rparr>,
            ctx = \<lparr>written = [], aborted = False\<rparr>, written_at_go = [], spawned = [],
            exited = True\<rparr>
         \<and> written (ctx (CheckOtp oenv (after (RegisterUser env w)))) = [otp_verified]
         \<and> serve (Post_user_register env mail_error # later) w = [RegisterUser env w]"
proof -
  have g: "generateOTP (rand_Int env) = ([], Some e)"
    using assms(3) by (rule generateOTP_failed)
  have "Email user = Email user1"
    using Email_Create [of "Create_result env" user1 "db w"] assms(4) by simp
  then have reg: "RegisterUser env w =
           \<lparr>after = w\<lparr>db := rows, cache := (cache w)(Email user1 \<mapsto> []),
                       log_lines := log_lines w @ [''error in generating OTP'' @ e]\<rparr>,
            ctx = \<lparr>written = [], aborted = False\<rparr>, written_at_go = [], spawned = [],
            exited = True\<rparr>"
    by (simp add: RegisterUser_fatal [OF assms(1,2) g assms(4)] new_Context_def)
  have "cache (after (RegisterUser env w))
          (OTPRequest_Email \<lparr>OTPRequest_Email = Email user1, OTPRequest_OTP = []\<rparr>)
        = Some (OTPRequest_OTP \<lparr>OTPRequest_Email = Email user1, OTPRequest_OTP = []\<rparr>)"
    by (simp add: reg)
  then have "written (ctx (CheckOtp oenv (after (RegisterUser env w)))) = [otp_verified]"
    using assms(5) by (simp add: CheckOtp_match)
  moreover have "serve (Post_user_register env mail_error # later) w = [RegisterUser env w]"
    by (simp add: reg)
  ultimately show ?thesis
    using reg by simp
qed

theorem RegisterUser_entropy_failure_stores_empty_code_witness:
  "RegisterUser (register_request alice ''p@ss1'' (Inr 1) (Inl ''no entropy'')) world_empty =
     \<lparr>after = world_empty
        \<lparr>db := [\<lparr>ID = 1, Email = alice, Password = ''hash of p@ss1'', IsVerified = False\<rparr>],
         cache := (cache world_empty)
           (Email \<lparr>ID = 0, Email = alice, Password = ''hash of p@ss1'', IsVerified = False\<rparr> \<mapsto> []),
         log_lines := log_lines world_empty @ [''error in generating OTP'' @ ''no entropy'']\<rparr>,
      ctx = \<lparr>written = [], aborted = False\<rparr>, written_at_go = [], spawned = [],
      exited = True\<rparr>
   \<and> written (ctx (CheckOtp (otp_request alice [])
        (after (RegisterUser (register_request alice ''p@ss1'' (Inr 1) (Inl ''no entropy''))
           world_empty)))) = [otp_verified]
   \<and> serve (Post_user_register (register_request alice ''p@ss1'' (Inr 1) (Inl ''no entropy'')) None
             # [Post_user_otp (otp_request alice []) None]) world_empty
       = [RegisterUser (register_request alice ''p@ss1'' (Inr 1) (Inl ''no entropy'')) world_empty]"
proof -
  let ?env = "register_request alice ''p@ss1'' (Inr 1) (Inl ''no entropy'')"
  let ?user0 = "\<lparr>ID = 0, Email = alice, Password = ''p@ss1'', IsVerified = False\<rparr>"
  let ?user1 = "\<lparr>ID = 0, Email = alice, Password = ''hash of p@ss1'', IsVerified = False\<rparr>"
  let ?row = "\<lparr>ID = 1, Email = alice, Password = ''hash of p@ss1'', IsVerified = False\<rparr>"
  have h1: "ShouldBindJSON_User ?env = Inr ?user0"
    by (simp add: register_request_def)
  have h2: "HashPassword ?env ?user0 (Password ?user0) = Inr ?user1"
    by (simp add: register_request_def)
  have h3: "rand_Int ?env (sint otp_max - sint otp_min) = Inl ''no entropy''"
    by (simp add: register_request_def)
  have h4: "Create (Create_result ?env) ?user1 (db world_empty) = (None, ?row, [?row])"
    by (simp add: register_request_def Create_def world_empty_def)
  have h5: "ShouldBindJSON_OTPRequest (otp_request alice [])
              = Inr \<lparr>OTPRequest_Email = Email ?user1, OTPRequest_OTP = []\<rparr>"
    by (simp add: otp_request_def)
  show ?thesis
    by (rule RegisterUser_entropy_failure_stores_empty_code [OF h1 h2 h3 h4 h5])
qed

section \<open>Failure of the update after a verification\<close>

text \<open>
  C9, as the code has it. With the code of the cache, the handler itself makes one call
  on the context, 200 \<^verbatim>\<open>OTP Verified\<close>, after the \<^verbatim>\<open>go\<close> statement and without
  waiting for the update of the database. When the update succeeds, the rows of that email
  are verified and that call is all the context receives. When the update fails, nothing
  is given to \<^verbatim>\<open>log\<close> and no row changes: the goroutine calls \<^verbatim>\<open>context.JSON\<close> with
  status 500 and the error's text on the context of the request, and since nothing orders
  that call and the handler's, the context receives the two in either order.
\<close>

theorem CheckOtp_update_failure_writes_context:
  assumes "ShouldBindJSON_OTPRequest env = Inr otp"
    and "cache w (OTPRequest_Email otp) = Some (OTPRequest_OTP otp)"
  shows "written (ctx (CheckOtp env w)) = [otp_verified]
         \<and> written_at_go (CheckOtp env w) = []
         \<and> settle None (CheckOtp env w)
             = (w\<lparr>db := Updates_IsVerified (OTPRequest_Email otp) (db w)\<rparr>, [[otp_verified]])
         \<and> settle (Some e) (CheckOtp env w)
             = (w, [[otp_verified, (StatusInternalServerError, error_H e)],
                    [(StatusInternalServerError, error_H e), otp_verified]])"
proof -
  have "CheckOtp env w =
          \<lparr>after = w, ctx = \<lparr>written = [otp_verified], aborted = False\<rparr>,
           written_at_go = [], spawned = [Task_Updates (OTPRequest_Email otp)], exited = False\<rparr>"
    using assms by (rule CheckOtp_match)
  then show ?thesis
    by (simp add: settle_def schedules_def)
qed

theorem CheckOtp_update_failure_writes_context_witness:
  "written (ctx (CheckOtp (otp_request alice ''73210'') world_alice)) = [otp_verified]
   \<and> written_at_go (CheckOtp (otp_request alice ''73210'') world_alice) = []
   \<and> settle None (CheckOtp (otp_request alice ''73210'') world_alice)
       = (world_alice\<lparr>db := Updates_IsVerified
                               (OTPRequest_Email \<lparr>OTPRequest_Email = alice, OTPRequest_OTP = ''73210''\<rparr>)
                               (db world_alice)\<rparr>,
          [[otp_verified]])
   \<and> settle (Some ''db down'') (CheckOtp (otp_request alice ''73210'') world_alice)
       = (world_alice,
          [[otp_verified, (StatusInternalServerError, error_H ''db down'')],
           [(StatusInternalServerError, error_H ''db down''), otp_verified]])"
proof -
  let ?otp = "\<lparr>OTPRequest_Email = alice, OTPRequest_OTP = ''73210''\<rparr>"
  have bound: "ShouldBindJSON_OTPRequest (otp_request alice ''73210'') = Inr ?otp"
    by (simp add: otp_request_def)
  have stored: "cache world_alice (OTPRequest_Email ?otp) = Some (OTPRequest_OTP ?otp)"
    by (simp add: world_alice_def)
  show ?thesis
    by (rule CheckOtp_update_failure_writes_context [OF bound stored])
qed

text \<open>
  The claim as stated fails: when the update started by Alice's verification fails with
  \<^verbatim>\<open>db down\<close>, nothing is logged, and in every order the context of her request
  receives a call with status 500 besides the 200 \<^verbatim>\<open>OTP Verified\<close>; in one of the two
  orders the 500 comes first. Had the update succeeded, the 200 would have been alone.
\<close>

theorem update_failure_counterexample:
  "log_lines (fst (settle (Some ''db down'') (CheckOtp (otp_request alice ''73210'') world_alice)))
     = []
   \<and> map IsVerified
       (db (fst (settle (Some ''db down'') (CheckOtp (otp_request alice ''73210'') world_alice))))
     = [False]
   \<and> snd (settle (Some ''db down'') (CheckOtp (otp_request alice ''73210'') world_alice))
       = [[(200, [(''message'', JString ''OTP Verified'')]), (500, [(''error'', JString ''db down'')])],
          [(500, [(''error'', JString ''db down'')]), (200, [(''message'', JString ''OTP Verified'')])]]
   \<and> snd (settle None (CheckOtp (otp_request alice ''73210'') world_alice))
       = [[(200, [(''message'', JString ''OTP Verified'')])]]"
  by (simp add: CheckOtp_def settle_def schedules_def otp_request_def world_alice_def alice_def
      alice_row_def JSON_def new_Context_def error_H_def StatusOK_def StatusInternalServerError_def)

section \<open>Failure of Create\<close>

text \<open>
  C10, as the code has it. \<^verbatim>\<open>RegisterUser\<close> looks at \<^verbatim>\<open>record.Error\<close> only after
  it has stored the generated code and started the goroutine that mails it. For every
  registration in which \<^verbatim>\<open>DB.Create\<close> fails and \<^verbatim>\<open>generateOTP\<close> returns a code,
  the caller is answered 500 with the error's text and the request is aborted, no row is
  added, and yet the code is in the cache under the email and a mail to that address,
  whose text ends with the code, has been handed to \<^verbatim>\<open>smtp.SendMail\<close>.
\<close>

theorem RegisterUser_Create_failure_leaves_challenge:
  assumes "ShouldBindJSON_User env = Inr user0"
    and "HashPassword env user0 (Password user0) = Inr user1"
    and "Create_result env = Inl e"
    and "generateOTP (rand_Int env) = (otp, None)"
  shows "RegisterUser env w =
           \<lparr>after = w\<lparr>cache := (cache w)(Email user1 \<mapsto> otp)\<rparr>,
            ctx = \<lparr>written = [(StatusInternalServerError, [(''error'', JString e)])],
                   aborted = True\<rparr>,
            written_at_go = [],
            spawned = [Task_SendMail
                         \<lparr>mail_addr = ''smtp.gmail.com:587'',
                          mail_auth = ([], Getenv env ''EMAIL'', Getenv env ''PASSWORD'', ''smtp.gmail.com''),
                          mail_from = Getenv env ''EMAIL'', mail_to = [Email user1],
                          mail_msg = ''To : '' @ Email user1 @ ''Subject : OTP for Registration ''
                            @ [CHR 0x0D, CHR 0x0A] @ ''  '' @ [CHR 0x0D, CHR 0x0A]
                            @ ''Your OTP For registration is '' @ otp @ [CHR 0x0A]\<rparr>],
            exited = False\<rparr>
         \<and> cache (after (RegisterUser env w)) (Email user1) = Some otp
         \<and> db (after (RegisterUser env w)) = db w"
proof -
  have c: "Create (Create_result env) user1 (db w) = (Some e, user1, db w)"
    using assms(3) by (simp add: Create_def)
  show ?thesis
    by (simp add: RegisterUser_generated [OF assms(1,2,4) c] JSON_def Abort_def new_Context_def
        otp_message_def error_H_def)
qed

theorem RegisterUser_Create_failure_leaves_challenge_witness:
  "RegisterUser (register_request alice ''p@ss1'' (Inl ''duplicate key'') (Inr 63210)) world_empty =
     \<lparr>after = world_empty\<lparr>cache := (cache world_empty)(alice \<mapsto> ''73210'')\<rparr>,
      ctx = \<lparr>written = [(StatusInternalServerError, [(''error'', JString ''duplicate key'')])],
             aborted = True\<rparr>,
      written_at_go = [],
      spawned = [Task_SendMail
                   \<lparr>mail_addr = ''smtp.gmail.com:587'',
                    mail_auth = ([], ''sender@example.com'', ''secret'', ''smtp.gmail.com''),
                    mail_from = ''sender@example.com'', mail_to = [alice],
                    mail_msg = ''To : '' @ alice @ ''Subject : OTP for Registration ''
                      @ [CHR 0x0D, CHR 0x0A] @ ''  '' @ [CHR 0x0D, CHR 0x0A]
                      @ ''Your OTP For registration is '' @ ''73210'' @ [CHR 0x0A]\<rparr>],
      exited = False\<rparr>
   \<and> cache (after (RegisterUser (register_request alice ''p@ss1'' (Inl ''duplicate key'') (Inr 63210))
        world_empty)) alice = Some ''73210''
   \<and> db (after (RegisterUser (register_request alice ''p@ss1'' (Inl ''duplicate key'') (Inr 63210))
        world_empty)) = db world_empty"
proof -
  let ?env = "register_request alice ''p@ss1'' (Inl ''duplicate key'') (Inr 63210)"
  let ?user0 = "\<lparr>ID = 0, Email = alice, Password = ''p@ss1'', IsVerified = False\<rparr>"
  let ?user1 = "\<lparr>ID = 0, Email = alice, Password = ''hash of p@ss1'', IsVerified = False\<rparr>"
  have h1: "ShouldBindJSON_User ?env = Inr ?user0"
    by (simp add: register_request_def)
  have h2: "HashPassword ?env ?user0 (Password ?user0) = Inr ?user1"
    by (simp add: register_request_def)
  have h3: "Create_result ?env = Inl ''duplicate key''"
    by (simp add: register_request_def)
  have h4: "generateOTP (rand_Int ?env) = (''73210'', None)"
    by (simp add: register_request_def generateOTP_63210)
  show ?thesis
    using RegisterUser_Create_failure_leaves_challenge [OF h1 h2 h3 h4, of world_empty]
    by (simp add: register_request_def)
qed

text \<open>
  The claim as stated fails where \<^verbatim>\<open>rand.Int\<close> fails as well: \<^verbatim>\<open>DB.Create\<close> has
  failed, yet the caller is answered nothing, no mail is handed over and no row is added;
  \<^verbatim>\<open>log.Fatal\<close> has ended the process.
\<close>

theorem Create_and_entropy_failure_counterexample:
  "written (ctx (RegisterUser
      (register_request alice ''p@ss1'' (Inl ''duplicate key'') (Inl ''no entropy'')) world_empty)) = []
   \<and> spawned (RegisterUser
      (register_request alice ''p@ss1'' (Inl ''duplicate key'') (Inl ''no entropy'')) world_empty) = []
   \<and> exited (RegisterUser
      (register_request alice ''p@ss1'' (Inl ''duplicate key'') (Inl ''no entropy'')) world_empty)
   \<and> db (after (RegisterUser
      (register_request alice ''p@ss1'' (Inl ''duplicate key'') (Inl ''no entropy'')) world_empty)) = []"
  by (simp add: RegisterUser_def register_request_def generateOTP_def Create_def world_empty_def
      new_Context_def)

end
